theory Spec2Isabelle
  imports Complex_Main
begin

section \<open>The project page: image carousel and full-screen viewer\<close>

text \<open>
  The component \<^verbatim>\<open>ProjectPage\<close> of \<^verbatim>\<open>src/pages/ProjectPage.tsx\<close> keeps three
  pieces of React state and a project looked up from the route. The handlers below are
  the component's own, each written as a function from the state before the event to
  the state after it.
\<close>

subsection \<open>Data\<close>

text \<open>
  The project record comes from \<^verbatim>\<open>../data/projectsData\<close>. Of its fields only
  \<^verbatim>\<open>screenshots\<close> is read by the carousel; the handlers read its \<^verbatim>\<open>length\<close>
  without a guard, so it is an array. \<^verbatim>\<open>projects.find\<close> yields \<^verbatim>\<open>undefined\<close> when no
  project matches the route: the project in scope is a \<open>project option\<close>.
\<close>

record project =
  screenshots :: "string list"

text \<open>
  \<^verbatim>\<open>useState(false)\<close>, \<^verbatim>\<open>useState(0)\<close> and \<^verbatim>\<open>useState<number | null>(null)\<close>.
  Indices are whole numbers and may leave the range of the array, so they are \<open>int\<close>.
  A touch coordinate is a finite double and may be fractional; it is held as the
  \<open>real\<close> number it denotes, and the one operation on coordinates, the subtraction
  in the touch-end handler, rounds as the double subtraction does.
\<close>

record page_state =
  showImageViewer :: bool
  currentImageIndex :: int
  touchStartX :: "real option"

definition initial_state :: page_state where
  "initial_state =
     \<lparr>showImageViewer = False, currentImageIndex = 0, touchStartX = None\<rparr>"

text \<open>
  A \<^verbatim>\<open>React.TouchEvent\<close>, reduced to what the handlers read: the \<^verbatim>\<open>clientX\<close> of
  each touch of \<^verbatim>\<open>touches\<close> and of \<^verbatim>\<open>changedTouches\<close>, in order.
\<close>

record touch_event =
  touches :: "real list"
  changedTouches :: "real list"

text \<open>
  Reading \<^verbatim>\<open>.clientX\<close> of a missing first touch is the only fault a handler can raise.
\<close>

datatype error = TypeError

subsection \<open>State setters\<close>

text \<open>
  The setters returned by \<^verbatim>\<open>useState\<close>. \<^verbatim>\<open>setCurrentImageIndex\<close> is called both with
  a value and with an updater function of the previous index.
\<close>

definition setShowImageViewer :: "bool \<Rightarrow> page_state \<Rightarrow> page_state" where
  "setShowImageViewer v s = s\<lparr>showImageViewer := v\<rparr>"

definition setCurrentImageIndex :: "int \<Rightarrow> page_state \<Rightarrow> page_state" where
  "setCurrentImageIndex i s = s\<lparr>currentImageIndex := i\<rparr>"

definition setCurrentImageIndex_with :: "(int \<Rightarrow> int) \<Rightarrow> page_state \<Rightarrow> page_state" where
  "setCurrentImageIndex_with f s = s\<lparr>currentImageIndex := f (currentImageIndex s)\<rparr>"

definition setTouchStartX :: "real option \<Rightarrow> page_state \<Rightarrow> page_state" where
  "setTouchStartX x s = s\<lparr>touchStartX := x\<rparr>"

subsection \<open>Navigation handlers\<close>

text \<open>
  \<^verbatim>\<open>if (project) setCurrentImageIndex((prevIndex) =>
       prevIndex === project.screenshots.length - 1 ? 0 : prevIndex + 1)\<close>
\<close>

definition handleNextImage :: "project option \<Rightarrow> page_state \<Rightarrow> page_state" where
  "handleNextImage proj s =
     (case proj of
        None \<Rightarrow> s
      | Some p \<Rightarrow>
          setCurrentImageIndex_with
            (\<lambda>prevIndex. if prevIndex = int (length (screenshots p)) - 1 then 0
                          else prevIndex + 1) s)"

text \<open>
  \<^verbatim>\<open>if (project) setCurrentImageIndex((prevIndex) =>
       prevIndex === 0 ? project.screenshots.length - 1 : prevIndex - 1)\<close>
\<close>

definition handlePrevImage :: "project option \<Rightarrow> page_state \<Rightarrow> page_state" where
  "handlePrevImage proj s =
     (case proj of
        None \<Rightarrow> s
      | Some p \<Rightarrow>
          setCurrentImageIndex_with
            (\<lambda>prevIndex. if prevIndex = 0 then int (length (screenshots p)) - 1
                          else prevIndex - 1) s)"

text \<open>The window-level \<^verbatim>\<open>keydown\<close> listener; the argument is \<^verbatim>\<open>event.key\<close>.\<close>

definition handleKeyDown :: "project option \<Rightarrow> string \<Rightarrow> page_state \<Rightarrow> page_state" where
  "handleKeyDown proj key s =
     (if key = ''ArrowLeft'' then handlePrevImage proj s
      else if key = ''ArrowRight'' then handleNextImage proj s
      else s)"

subsection \<open>Double arithmetic\<close>

text \<open>
  A JavaScript \<^verbatim>\<open>number\<close> is an IEEE 754 binary64: 53 significant bits, binades
  \<open>-1022\<close> to \<open>1023\<close>, subnormals below. The difference of two doubles is the exact
  difference rounded to the nearest double, ties to the even significand.
\<close>

text \<open>The power of two with an integer exponent.\<close>

definition two_to :: "int \<Rightarrow> real" where
  "two_to k = (if 0 \<le> k then 2 ^ nat k else 1 / 2 ^ nat (- k))"

text \<open>
  How often a number from 1 upwards can be halved before it is below 2, and how often a
  number below 1 must be doubled to reach 1, each counted no further than the bound.
\<close>

fun halvings :: "nat \<Rightarrow> real \<Rightarrow> nat" where
  "halvings 0 x = 0"
| "halvings (Suc n) x = (if x < 2 then 0 else Suc (halvings n (x / 2)))"

fun doublings :: "nat \<Rightarrow> real \<Rightarrow> nat" where
  "doublings 0 x = 0"
| "doublings (Suc n) x = (if 1 \<le> x then 0 else Suc (doublings n (2 * x)))"

text \<open>
  The binade of a number: the exponent \<open>e\<close> with \<open>2^e \<le> |x| < 2^(e+1)\<close>, kept within
  the exponents of normal doubles. Below \<open>2^-1022\<close> it stays \<open>-1022\<close>, which gives the
  subnormals their fixed spacing.
\<close>

definition binade :: "real \<Rightarrow> int" where
  "binade x =
     (if 1 \<le> \<bar>x\<bar> then int (halvings 1023 \<bar>x\<bar>) else - int (doublings 1022 \<bar>x\<bar>))"

text \<open>The spacing of the doubles in the binade of a number.\<close>

definition ulp :: "real \<Rightarrow> real" where
  "ulp x = two_to (binade x - 52)"

text \<open>Rounding to the nearest integer, a tie to the even one.\<close>

definition round_half_even :: "real \<Rightarrow> int" where
  "round_half_even r =
     (if frac r < 1 / 2 then \<lfloor>r\<rfloor>
      else if 1 / 2 < frac r then \<lfloor>r\<rfloor> + 1
      else if even \<lfloor>r\<rfloor> then \<lfloor>r\<rfloor>
      else \<lfloor>r\<rfloor> + 1)"

text \<open>
  Rounding a real number to the nearest double. Where the double result is
  \<^verbatim>\<open>Infinity\<close> or \<^verbatim>\<open>-Infinity\<close> (from \<open>2^1024 - 2^970\<close> in magnitude), the value
  here is a number of the same sign and of magnitude at least \<open>2^1024\<close>: the handler
  only compares the difference with 50 and -50, and both comparisons come out as they
  do for the infinity.
\<close>

definition to_double :: "real \<Rightarrow> real" where
  "to_double x = of_int (round_half_even (x / ulp x)) * ulp x"

text \<open>The \<^verbatim>\<open>-\<close> of two numbers.\<close>

definition double_sub :: "real \<Rightarrow> real \<Rightarrow> real" where
  "double_sub a b = to_double (a - b)"

subsection \<open>Touch handlers\<close>

text \<open>\<^verbatim>\<open>setTouchStartX(e.touches[0].clientX)\<close>\<close>

definition handleTouchStart :: "touch_event \<Rightarrow> page_state \<Rightarrow> error + page_state" where
  "handleTouchStart e s =
     (case touches e of
        [] \<Rightarrow> Inl TypeError
      | x # _ \<Rightarrow> Inr (setTouchStartX (Some x) s))"

text \<open>
  The swipe test. \<^verbatim>\<open>changedTouches[0].clientX\<close> is read only when a start coordinate
  is tracked; \<^verbatim>\<open>swipeDistance = touchStartX - touchEnd\<close> is the rounded difference
  of the two doubles; \<^verbatim>\<open>setTouchStartX(null)\<close> is the last statement on every path
  that does not fault.
\<close>

definition handleTouchEnd ::
  "project option \<Rightarrow> touch_event \<Rightarrow> page_state \<Rightarrow> error + page_state" where
  "handleTouchEnd proj e s =
     (case touchStartX s of
        None \<Rightarrow> Inr (setTouchStartX None s)
      | Some startX \<Rightarrow>
          (case changedTouches e of
             [] \<Rightarrow> Inl TypeError
           | touchEnd # _ \<Rightarrow>
               (let swipeDistance = double_sub startX touchEnd in
                Inr (setTouchStartX None
                       (if swipeDistance > 50 then handleNextImage proj s
                        else if swipeDistance < - 50 then handlePrevImage proj s
                        else s)))))"

subsection \<open>Viewer handlers\<close>

text \<open>\<^verbatim>\<open>setCurrentImageIndex(index); setShowImageViewer(true);\<close>\<close>

definition handleOpenImageViewer :: "int \<Rightarrow> page_state \<Rightarrow> page_state" where
  "handleOpenImageViewer index s = setShowImageViewer True (setCurrentImageIndex index s)"

text \<open>\<^verbatim>\<open>setShowImageViewer(false);\<close>\<close>

definition handleCloseImageViewer :: "page_state \<Rightarrow> page_state" where
  "handleCloseImageViewer s = setShowImageViewer False s"

subsection \<open>What is rendered\<close>

text \<open>
  JavaScript array indexing: \<^verbatim>\<open>undefined\<close> outside the array, never a fault.
\<close>

definition js_index :: "'a list \<Rightarrow> int \<Rightarrow> 'a option" where
  "js_index xs i = (if 0 \<le> i \<and> i < int (length xs) then Some (xs ! nat i) else None)"

text \<open>
  The carousel block is guarded by
  \<^verbatim>\<open>project.screenshots && project.screenshots.length > 0\<close>.
\<close>

definition carousel_rendered :: "project option \<Rightarrow> bool" where
  "carousel_rendered proj =
     (case proj of None \<Rightarrow> False | Some p \<Rightarrow> 0 < length (screenshots p))"

text \<open>
  The \<^verbatim>\<open>src\<close> of the inline image, \<^verbatim>\<open>project.screenshots[currentImageIndex]\<close>:
  \<open>None\<close> when the carousel is not rendered or the index is outside the array.
\<close>

definition inline_image :: "project option \<Rightarrow> page_state \<Rightarrow> string option" where
  "inline_image proj s =
     (case proj of
        None \<Rightarrow> None
      | Some p \<Rightarrow>
          if 0 < length (screenshots p) then js_index (screenshots p) (currentImageIndex s)
          else None)"

text \<open>
  The indicator buttons: \<^verbatim>\<open>project.screenshots.map((_, index) => ...)\<close> makes one
  button per screenshot, whose click calls \<^verbatim>\<open>setCurrentImageIndex(index)\<close>. The list
  holds the index each button selects.
\<close>

definition indicator_indices :: "project option \<Rightarrow> int list" where
  "indicator_indices proj =
     (case proj of
        None \<Rightarrow> []
      | Some p \<Rightarrow>
          if 0 < length (screenshots p) then map int [0 ..< length (screenshots p)]
          else [])"

text \<open>The props handed to \<^verbatim>\<open>ImageViewer\<close>.\<close>

record viewer_props =
  "show" :: bool
  images :: "string list"
  currentIndex :: int

definition image_viewer_props :: "project \<Rightarrow> page_state \<Rightarrow> viewer_props" where
  "image_viewer_props p s =
     \<lparr>show = showImageViewer s, images = screenshots p,
      currentIndex = currentImageIndex s\<rparr>"

text \<open>
  Modelled from the spec: the component \<^verbatim>\<open>../components/ImageViewer\<close> is not among
  the sources. The specification says of it: render the image at \<^verbatim>\<open>currentIndex\<close>
  full-screen when \<^verbatim>\<open>viewerOpen = true\<close>; otherwise render nothing.
\<close>

definition ImageViewer_image :: "viewer_props \<Rightarrow> string option" where
  "ImageViewer_image props =
     (if show props then js_index (images props) (currentIndex props) else None)"

subsection \<open>Events\<close>

text \<open>
  Every way the page's state can change: the window-level key listener, the touch
  listeners of the page's root element, the clicks on the carousel's controls, and the
  three callbacks handed to \<^verbatim>\<open>ImageViewer\<close> (\<^verbatim>\<open>onClose\<close>, \<^verbatim>\<open>onNext\<close>,
  \<^verbatim>\<open>onPrev\<close>). An indicator click carries the index its button was built with.
  React runs each handler to completion and renders again before the next event, so
  a handler reads the state its predecessor left.
\<close>

datatype event =
    KeyDown string
  | TouchStart touch_event
  | TouchEnd touch_event
  | ClickImage
  | ClickPrevButton
  | ClickNextButton
  | ClickIndicator int
  | ViewerOnClose
  | ViewerOnNext
  | ViewerOnPrev

text \<open>
  Which events the rendered page can deliver. The key listener is registered before the
  early return for a missing project; everything else belongs to the page that is only
  rendered for a project, and the carousel's controls to the carousel block.
\<close>

fun available :: "project option \<Rightarrow> event \<Rightarrow> bool" where
  "available proj (KeyDown key) = True"
| "available proj (TouchStart e) = (proj \<noteq> None)"
| "available proj (TouchEnd e) = (proj \<noteq> None)"
| "available proj ClickImage = carousel_rendered proj"
| "available proj ClickPrevButton = carousel_rendered proj"
| "available proj ClickNextButton = carousel_rendered proj"
| "available proj (ClickIndicator index) = (index \<in> set (indicator_indices proj))"
| "available proj ViewerOnClose = (proj \<noteq> None)"
| "available proj ViewerOnNext = (proj \<noteq> None)"
| "available proj ViewerOnPrev = (proj \<noteq> None)"

text \<open>
  The handler each event runs. The inline image's click is
  \<^verbatim>\<open>() => handleOpenImageViewer(currentImageIndex)\<close>, an indicator's is
  \<^verbatim>\<open>() => setCurrentImageIndex(index)\<close>.
\<close>

fun dispatch :: "project option \<Rightarrow> page_state \<Rightarrow> event \<Rightarrow> error + page_state" where
  "dispatch proj s (KeyDown key) = Inr (handleKeyDown proj key s)"
| "dispatch proj s (TouchStart e) = handleTouchStart e s"
| "dispatch proj s (TouchEnd e) = handleTouchEnd proj e s"
| "dispatch proj s ClickImage = Inr (handleOpenImageViewer (currentImageIndex s) s)"
| "dispatch proj s ClickPrevButton = Inr (handlePrevImage proj s)"
| "dispatch proj s ClickNextButton = Inr (handleNextImage proj s)"
| "dispatch proj s (ClickIndicator index) = Inr (setCurrentImageIndex index s)"
| "dispatch proj s ViewerOnClose = Inr (handleCloseImageViewer s)"
| "dispatch proj s ViewerOnNext = Inr (handleNextImage proj s)"
| "dispatch proj s ViewerOnPrev = Inr (handlePrevImage proj s)"

subsection \<open>The index invariant and example inputs\<close>

text \<open>The current index is a valid index into the project's screenshots.\<close>

definition index_in_range :: "project \<Rightarrow> page_state \<Rightarrow> bool" where
  "index_in_range p s =
     (0 \<le> currentImageIndex s \<and> currentImageIndex s < int (length (screenshots p)))"

definition three_shots :: project where
  "three_shots = \<lparr>screenshots = [''a.png'', ''b.png'', ''c.png'']\<rparr>"

definition four_shots :: project where
  "four_shots = \<lparr>screenshots = [''a.png'', ''b.png'', ''c.png'', ''d.png'']\<rparr>"

definition no_shots :: project where
  "no_shots = \<lparr>screenshots = []\<rparr>"

text \<open>The state after mounting, moved to a given index.\<close>

definition at_index :: "int \<Rightarrow> page_state" where
  "at_index i = \<lparr>showImageViewer = False, currentImageIndex = i, touchStartX = None\<rparr>"

text \<open>The state while a touch that started at a given coordinate is tracked.\<close>

definition tracking :: "real \<Rightarrow> page_state" where
  "tracking x = \<lparr>showImageViewer = False, currentImageIndex = 1, touchStartX = Some x\<rparr>"

text \<open>A touch-end event whose lifted touch is at a given coordinate.\<close>

definition touch_end_at :: "real \<Rightarrow> touch_event" where
  "touch_end_at x = \<lparr>touches = [], changedTouches = [x]\<rparr>"

section \<open>Properties\<close>

subsection \<open>The handlers, field by field\<close>

lemma next_fields:
  "handleNextImage (Some p) s =
     s\<lparr>currentImageIndex :=
         (if currentImageIndex s = int (length (screenshots p)) - 1 then 0
          else currentImageIndex s + 1)\<rparr>"
  by (simp add: handleNextImage_def setCurrentImageIndex_with_def)

lemma prev_fields:
  "handlePrevImage (Some p) s =
     s\<lparr>currentImageIndex :=
         (if currentImageIndex s = 0 then int (length (screenshots p)) - 1
          else currentImageIndex s - 1)\<rparr>"
  by (simp add: handlePrevImage_def setCurrentImageIndex_with_def)

lemma next_show: "showImageViewer (handleNextImage proj s) = showImageViewer s"
  by (simp add: handleNextImage_def setCurrentImageIndex_with_def split: option.splits)

lemma prev_show: "showImageViewer (handlePrevImage proj s) = showImageViewer s"
  by (simp add: handlePrevImage_def setCurrentImageIndex_with_def split: option.splits)

lemmas handler_defs =
  handleNextImage_def handlePrevImage_def setCurrentImageIndex_with_def
  setCurrentImageIndex_def setShowImageViewer_def setTouchStartX_def
  handleOpenImageViewer_def handleCloseImageViewer_def

subsection \<open>Iterating next\<close>

text \<open>
  From a valid index, \<open>k\<close> presses of next add \<open>k\<close> to the index modulo the number of
  screenshots and touch nothing else.
\<close>

lemma next_iterated:
  assumes "index_in_range p s"
  shows "(handleNextImage (Some p) ^^ k) s =
           s\<lparr>currentImageIndex :=
               (currentImageIndex s + int k) mod int (length (screenshots p))\<rparr>"
proof (induction k)
  case 0
  from assms show ?case by (simp add: index_in_range_def)
next
  case (Suc k)
  let ?n = "int (length (screenshots p))"
  let ?m = "(currentImageIndex s + int k) mod ?n"
  from assms have npos: "0 < ?n" by (auto simp: index_in_range_def)
  then have bounds: "0 \<le> ?m" "?m < ?n" by simp_all
  have shift: "(currentImageIndex s + int (Suc k)) mod ?n = (?m + 1) mod ?n"
  proof -
    have "currentImageIndex s + int (Suc k) = (currentImageIndex s + int k) + 1"
      by simp
    then show ?thesis
      by (simp only: mod_add_left_eq)
  qed
  have step: "(if ?m = ?n - 1 then 0 else ?m + 1) = (currentImageIndex s + int (Suc k)) mod ?n"
  proof (cases "?m = ?n - 1")
    case True
    then have "(?m + 1) mod ?n = 0" by simp
    with True shift show ?thesis by simp
  next
    case False
    with bounds have "(?m + 1) mod ?n = ?m + 1" by simp
    with False shift show ?thesis by simp
  qed
  have "(handleNextImage (Some p) ^^ Suc k) s =
          handleNextImage (Some p) ((handleNextImage (Some p) ^^ k) s)"
    by simp
  also have "\<dots> = handleNextImage (Some p) (s\<lparr>currentImageIndex := ?m\<rparr>)"
    by (simp only: Suc.IH)
  also have "\<dots> = s\<lparr>currentImageIndex := (if ?m = ?n - 1 then 0 else ?m + 1)\<rparr>"
    by (simp add: handleNextImage_def setCurrentImageIndex_with_def)
  also have "\<dots> = s\<lparr>currentImageIndex := (currentImageIndex s + int (Suc k)) mod ?n\<rparr>"
    by (simp only: step)
  finally show ?case .
qed

text \<open>
  C3. For every project with N > 0 screenshots and every state whose current index is
  in [0, N-1], pressing next exactly N times gives back the same state, so the current
  index returns to where it started.
\<close>

theorem next_image_period:
  "index_in_range p s \<Longrightarrow>
     (handleNextImage (Some p) ^^ length (screenshots p)) s = s"
  by (simp add: next_iterated) (simp add: index_in_range_def)

theorem next_image_period_witness:
  "index_in_range three_shots (at_index 1) \<and>
   (handleNextImage (Some three_shots) ^^ length (screenshots three_shots)) (at_index 1)
     = at_index 1"
proof -
  have valid: "index_in_range three_shots (at_index 1)"
    by (simp add: index_in_range_def three_shots_def at_index_def)
  from valid next_image_period [OF valid] show ?thesis
    by (rule conjI)
qed

text \<open>
  C4. For every project with N > 0 screenshots and every state whose current index is
  in [0, N-1], pressing next and then previous gives back the same state: previous
  undoes next.
\<close>

theorem prev_undoes_next:
  "index_in_range p s \<Longrightarrow>
     handlePrevImage (Some p) (handleNextImage (Some p) s) = s"
  by (auto simp: next_fields prev_fields index_in_range_def)

theorem prev_undoes_next_witness:
  "index_in_range three_shots (at_index 2) \<and>
   handlePrevImage (Some three_shots) (handleNextImage (Some three_shots) (at_index 2))
     = at_index 2"
proof -
  have valid: "index_in_range three_shots (at_index 2)"
    by (simp add: index_in_range_def three_shots_def at_index_def)
  from valid prev_undoes_next [OF valid] show ?thesis
    by (rule conjI)
qed

subsection \<open>Rounding to a double\<close>

text \<open>
  The counting functions find the binade; rounding never crosses an integer multiple of
  the spacing; whole numbers below \<open>2^53\<close> in magnitude are doubles, and rounding
  keeps a number on its side of each of them.
\<close>

lemma two_to_pos: "0 < two_to k"
  by (simp add: two_to_def)

lemma halvings_le: "halvings n x \<le> n"
  by (induction n arbitrary: x) auto

lemma halvings_lower: "1 \<le> x \<Longrightarrow> 2 ^ halvings n x \<le> x"
proof (induction n arbitrary: x)
  case 0
  then show ?case by simp
next
  case (Suc n)
  show ?case
  proof (cases "x < 2")
    case True
    with Suc.prems show ?thesis by simp
  next
    case False
    then have "1 \<le> x / 2" by simp
    then have "2 ^ halvings n (x / 2) \<le> x / 2" by (rule Suc.IH)
    with False show ?thesis by simp
  qed
qed

lemma halvings_upper: "x < 2 ^ Suc k \<Longrightarrow> halvings n x \<le> k"
proof (induction n arbitrary: x k)
  case 0
  then show ?case by simp
next
  case (Suc n)
  show ?case
  proof (cases "x < 2")
    case True
    then show ?thesis by simp
  next
    case False
    with Suc.prems obtain j where k: "k = Suc j"
      by (cases k) auto
    from Suc.prems k have "x / 2 < 2 ^ Suc j" by simp
    then have "halvings n (x / 2) \<le> j" by (rule Suc.IH)
    with False k show ?thesis by simp
  qed
qed

lemma doublings_le: "doublings n x \<le> n"
  by (induction n arbitrary: x) auto

lemma doublings_zero: "doublings n 0 = n"
  by (induction n) auto

lemma binade_upper: "\<bar>x\<bar> < 2 ^ Suc k \<Longrightarrow> binade x \<le> int k"
  by (simp add: binade_def halvings_upper)

lemma binade_lower: "- 1022 \<le> binade x"
proof -
  have "doublings 1022 \<bar>x\<bar> \<le> 1022" by (rule doublings_le)
  then show ?thesis by (simp add: binade_def)
qed

lemma binade_abs_lower: "1 \<le> \<bar>x\<bar> \<Longrightarrow> 0 \<le> binade x \<and> two_to (binade x) \<le> \<bar>x\<bar>"
  by (simp add: binade_def two_to_def halvings_lower)

lemma round_half_even_of_int: "round_half_even (of_int n) = n"
  by (simp add: round_half_even_def)

lemma round_half_even_le: "r \<le> of_int n \<Longrightarrow> round_half_even r \<le> n"
proof -
  assume le: "r \<le> of_int n"
  then have fl: "\<lfloor>r\<rfloor> \<le> n" by (simp add: floor_le_iff)
  show ?thesis
  proof (cases "frac r = 0")
    case True
    then have "frac r < 1 / 2" by linarith
    then have "round_half_even r = \<lfloor>r\<rfloor>" by (simp add: round_half_even_def)
    with fl show ?thesis by simp
  next
    case False
    then have "r \<notin> \<int>" by simp
    with le have "r < of_int n" by (cases "r = of_int n") auto
    then have "\<lfloor>r\<rfloor> < n" by (simp add: floor_less_iff)
    then show ?thesis by (simp add: round_half_even_def)
  qed
qed

lemma round_half_even_ge: "of_int n \<le> r \<Longrightarrow> n \<le> round_half_even r"
proof -
  assume "of_int n \<le> r"
  then have "n \<le> \<lfloor>r\<rfloor>" by (simp add: le_floor_iff)
  then show ?thesis by (simp add: round_half_even_def)
qed

lemma to_double_le:
  assumes "x \<le> c" and "c / ulp x = of_int n"
  shows "to_double x \<le> c"
proof -
  have pos: "0 < ulp x" by (simp add: ulp_def two_to_pos)
  from assms pos have "x / ulp x \<le> of_int n"
    by (simp add: divide_right_mono flip: assms(2))
  then have "round_half_even (x / ulp x) \<le> n" by (rule round_half_even_le)
  then have "of_int (round_half_even (x / ulp x)) * ulp x \<le> of_int n * ulp x"
    using pos by simp
  also from assms(2) pos have "of_int n * ulp x = c" by (simp add: field_simps)
  finally show ?thesis by (simp add: to_double_def)
qed

lemma to_double_ge:
  assumes "c \<le> x" and "c / ulp x = of_int n"
  shows "c \<le> to_double x"
proof -
  have pos: "0 < ulp x" by (simp add: ulp_def two_to_pos)
  from assms pos have "of_int n \<le> x / ulp x"
    by (simp add: divide_right_mono flip: assms(2))
  then have "n \<le> round_half_even (x / ulp x)" by (rule round_half_even_ge)
  then have "of_int n * ulp x \<le> of_int (round_half_even (x / ulp x)) * ulp x"
    using pos by simp
  moreover from assms(2) pos have "of_int n * ulp x = c" by (simp add: field_simps)
  ultimately show ?thesis by (simp add: to_double_def)
qed


lemma halvings_ge: "2 ^ k \<le> x \<Longrightarrow> k \<le> n \<Longrightarrow> k \<le> halvings n x"
proof (induction n arbitrary: x k)
  case 0
  then show ?case by simp
next
  case (Suc n)
  show ?case
  proof (cases k)
    case 0
    then show ?thesis by simp
  next
    case (Suc j)
    with Suc.prems have big: "2 * 2 ^ j \<le> x" and j: "j \<le> n" by simp_all
    have "(1::real) \<le> 2 ^ j" by simp
    with big have "\<not> x < 2" by linarith
    moreover from big have "2 ^ j \<le> x / 2" by simp
    then have "j \<le> halvings n (x / 2)" using j by (rule Suc.IH)
    ultimately show ?thesis using Suc by simp
  qed
qed

lemma binade_eq:
  assumes "2 ^ k \<le> \<bar>x\<bar>" and "\<bar>x\<bar> < 2 ^ Suc k" and "k \<le> 1023"
  shows "binade x = int k"
proof -
  have "(1::real) \<le> 2 ^ k" by simp
  with assms(1) have one: "1 \<le> \<bar>x\<bar>" by linarith
  from assms(1,3) have "k \<le> halvings 1023 \<bar>x\<bar>" by (rule halvings_ge)
  moreover from assms(2) have "halvings 1023 \<bar>x\<bar> \<le> k" by (rule halvings_upper)
  ultimately show ?thesis using one by (simp add: binade_def)
qed

lemma two_to_nonpos: "j \<le> 0 \<Longrightarrow> two_to j = 1 / 2 ^ nat (- j)"
  by (cases "j = 0") (simp_all add: two_to_def)

lemma int_over_ulp:
  assumes "\<bar>x\<bar> < 2 ^ 53"
  shows "of_int c / ulp x = of_int (c * 2 ^ nat (52 - binade x))"
proof -
  from assms have "binade x \<le> 52" using binade_upper [of x 52] by simp
  then have "ulp x = 1 / 2 ^ nat (52 - binade x)"
    by (simp add: ulp_def two_to_nonpos)
  then show ?thesis by simp
qed

lemma to_double_nonpos: "x \<le> 0 \<Longrightarrow> to_double x \<le> 0"
  using to_double_le [of x 0 0] by simp

lemma to_double_nonneg: "0 \<le> x \<Longrightarrow> 0 \<le> to_double x"
  using to_double_ge [of 0 x 0] by simp

lemma to_double_le_int:
  assumes "x \<le> of_int c" and "0 \<le> c" and "c < 2 ^ 53"
  shows "to_double x \<le> of_int c"
proof (cases "x \<le> 0")
  case True
  then have "to_double x \<le> 0" by (rule to_double_nonpos)
  with assms(2) show ?thesis by simp
next
  case False
  with assms have "\<bar>x\<bar> \<le> of_int c" by simp
  moreover from assms(3) have "(of_int c :: real) < 2 ^ 53"
    by (metis of_int_less_numeral_power_cancel_iff)
  ultimately have "\<bar>x\<bar> < 2 ^ 53" by linarith
  then have "of_int c / ulp x = of_int (c * 2 ^ nat (52 - binade x))"
    by (rule int_over_ulp)
  with assms(1) show ?thesis by (rule to_double_le)
qed

lemma to_double_ge_int:
  assumes "of_int c \<le> x" and "c \<le> 0" and "- (2 ^ 53) < c"
  shows "of_int c \<le> to_double x"
proof (cases "0 \<le> x")
  case True
  then have "0 \<le> to_double x" by (rule to_double_nonneg)
  with assms(2) show ?thesis by simp
next
  case False
  with assms have "\<bar>x\<bar> \<le> - of_int c" by simp
  moreover from assms(3) have "- (of_int c :: real) < 2 ^ 53"
  proof -
    from assms(3) have "- c < 2 ^ 53" by simp
    then have "(of_int (- c) :: real) < 2 ^ 53"
      by (metis of_int_less_numeral_power_cancel_iff)
    then show ?thesis by simp
  qed
  ultimately have "\<bar>x\<bar> < 2 ^ 53" by linarith
  then have "of_int c / ulp x = of_int (c * 2 ^ nat (52 - binade x))"
    by (rule int_over_ulp)
  with assms(1) show ?thesis by (rule to_double_ge)
qed

lemma to_double_int:
  assumes "\<bar>c\<bar> < 2 ^ 53"
  shows "to_double (of_int c) = of_int c"
proof -
  have "\<bar>(of_int c :: real)\<bar> < 2 ^ 53"
    using assms by (metis of_int_abs of_int_less_numeral_power_cancel_iff)
  then have ratio:
    "of_int c / ulp (of_int c) = of_int (c * 2 ^ nat (52 - binade (of_int c)))"
    by (rule int_over_ulp)
  have self: "(of_int c :: real) \<le> of_int c" by simp
  from self ratio have "to_double (of_int c) \<le> of_int c" by (rule to_double_le)
  moreover from self ratio have "of_int c \<le> to_double (of_int c)" by (rule to_double_ge)
  ultimately show ?thesis by simp
qed

lemma to_double_numeral:
  "numeral k < (2::int) ^ 53 \<Longrightarrow> to_double (numeral k) = numeral k"
  using to_double_int [of "numeral k"] by simp

lemma to_double_neg_numeral:
  "numeral k < (2::int) ^ 53 \<Longrightarrow> to_double (- numeral k) = - numeral k"
  using to_double_int [of "- numeral k"] by simp

subsection \<open>Swipe recognition\<close>

text \<open>
  C5. For every touch-end event whose lifted touch is at endX, received while a start
  coordinate startX is tracked, with the distance startX - endX as the handler computes
  it: if the distance is above 50 the handler runs next; if it is below -50 it runs
  previous; otherwise it navigates nowhere. A distance of exactly 50 or exactly -50
  does not navigate; a distance of 51 does. The boundary cases hold of the computed
  distance and of the exact difference of the coordinates alike, and an exact
  difference from -50 to 50 never navigates. In each case the only other change is
  that the tracked coordinate is cleared.
\<close>

theorem touch_end_thresholds:
  "touchStartX s = Some startX \<Longrightarrow> changedTouches e = endX # rest \<Longrightarrow>
   (double_sub startX endX > 50 \<longrightarrow>
      handleTouchEnd proj e s = Inr ((handleNextImage proj s)\<lparr>touchStartX := None\<rparr>)) \<and>
   (double_sub startX endX < - 50 \<longrightarrow>
      handleTouchEnd proj e s = Inr ((handlePrevImage proj s)\<lparr>touchStartX := None\<rparr>)) \<and>
   (- 50 \<le> double_sub startX endX \<and> double_sub startX endX \<le> 50 \<longrightarrow>
      handleTouchEnd proj e s = Inr (s\<lparr>touchStartX := None\<rparr>)) \<and>
   (double_sub startX endX = 50 \<longrightarrow>
      handleTouchEnd proj e s = Inr (s\<lparr>touchStartX := None\<rparr>)) \<and>
   (double_sub startX endX = - 50 \<longrightarrow>
      handleTouchEnd proj e s = Inr (s\<lparr>touchStartX := None\<rparr>)) \<and>
   (double_sub startX endX = 51 \<longrightarrow>
      handleTouchEnd proj e s = Inr ((handleNextImage proj s)\<lparr>touchStartX := None\<rparr>)) \<and>
   (- 50 \<le> startX - endX \<and> startX - endX \<le> 50 \<longrightarrow>
      handleTouchEnd proj e s = Inr (s\<lparr>touchStartX := None\<rparr>)) \<and>
   (startX - endX = 50 \<longrightarrow> handleTouchEnd proj e s = Inr (s\<lparr>touchStartX := None\<rparr>)) \<and>
   (startX - endX = - 50 \<longrightarrow> handleTouchEnd proj e s = Inr (s\<lparr>touchStartX := None\<rparr>)) \<and>
   (startX - endX = 51 \<longrightarrow>
      handleTouchEnd proj e s = Inr ((handleNextImage proj s)\<lparr>touchStartX := None\<rparr>))"
proof -
  assume start: "touchStartX s = Some startX" and lifted: "changedTouches e = endX # rest"
  let ?d = "double_sub startX endX"
  have above: "?d > 50 \<Longrightarrow>
      handleTouchEnd proj e s = Inr ((handleNextImage proj s)\<lparr>touchStartX := None\<rparr>)"
    using start lifted by (simp add: handleTouchEnd_def setTouchStartX_def Let_def)
  have below: "?d < - 50 \<Longrightarrow>
      handleTouchEnd proj e s = Inr ((handlePrevImage proj s)\<lparr>touchStartX := None\<rparr>)"
    using start lifted by (simp add: handleTouchEnd_def setTouchStartX_def Let_def)
  have between: "- 50 \<le> ?d \<Longrightarrow> ?d \<le> 50 \<Longrightarrow>
      handleTouchEnd proj e s = Inr (s\<lparr>touchStartX := None\<rparr>)"
    using start lifted by (simp add: handleTouchEnd_def setTouchStartX_def Let_def)
  have upper: "startX - endX \<le> 50 \<Longrightarrow> ?d \<le> 50"
    using to_double_le_int [of "startX - endX" 50] by (simp add: double_sub_def)
  have lower: "- 50 \<le> startX - endX \<Longrightarrow> - 50 \<le> ?d"
    using to_double_ge_int [of "- 50" "startX - endX"] by (simp add: double_sub_def)
  have exact51: "startX - endX = 51 \<Longrightarrow> ?d = 51"
    by (simp add: double_sub_def to_double_numeral)
  from above below between upper lower exact51 show ?thesis
    by auto
qed

text \<open>
  A left swipe of 100, a right swipe of 100, a tap, the two boundaries and one pixel
  past the boundary, on three screenshots with the second one current.
\<close>

theorem touch_end_thresholds_witness:
  "handleTouchEnd (Some three_shots) (touch_end_at 200) (tracking 300) = Inr (at_index 2) \<and>
   handleTouchEnd (Some three_shots) (touch_end_at 300) (tracking 200) = Inr (at_index 0) \<and>
   handleTouchEnd (Some three_shots) (touch_end_at 210) (tracking 200) = Inr (at_index 1) \<and>
   handleTouchEnd (Some three_shots) (touch_end_at 250) (tracking 300) = Inr (at_index 1) \<and>
   handleTouchEnd (Some three_shots) (touch_end_at 350) (tracking 300) = Inr (at_index 1) \<and>
   handleTouchEnd (Some three_shots) (touch_end_at 249) (tracking 300) = Inr (at_index 2)"
  using
    touch_end_thresholds [of "tracking 300" 300 "touch_end_at 200" 200 "[]" "Some three_shots"]
    touch_end_thresholds [of "tracking 200" 200 "touch_end_at 300" 300 "[]" "Some three_shots"]
    touch_end_thresholds [of "tracking 200" 200 "touch_end_at 210" 210 "[]" "Some three_shots"]
    touch_end_thresholds [of "tracking 300" 300 "touch_end_at 250" 250 "[]" "Some three_shots"]
    touch_end_thresholds [of "tracking 300" 300 "touch_end_at 350" 350 "[]" "Some three_shots"]
    touch_end_thresholds [of "tracking 300" 300 "touch_end_at 249" 249 "[]" "Some three_shots"]
  by (simp add: tracking_def touch_end_at_def at_index_def three_shots_def
      next_fields prev_fields double_sub_def to_double_numeral to_double_neg_numeral)

text \<open>
  The distance is the rounded one. The doubles nearest to 50.02 and to 0.02 are
  \<open>7039689167533507 / 2^47\<close> and \<open>5764607523034235 / 2^58\<close>; their exact difference is
  \<open>50 + 901 / 2^58\<close>, above 50 by less than half the spacing of the doubles there, so
  the handler's distance is exactly 50 and a touch that starts at the first and ends at
  the second does not navigate.
\<close>

lemma double_sub_rounds_to_50:
  "double_sub (7039689167533507 / 2 ^ 47) (5764607523034235 / 2 ^ 58) = 50"
proof -
  define x :: real where "x = 7039689167533507 / 2 ^ 47 - 5764607523034235 / 2 ^ 58"
  have "binade x = int 5"
    by (rule binade_eq) (simp_all add: x_def)
  then have u: "ulp x = 1 / 2 ^ 47"
    by (simp add: ulp_def two_to_def)
  have "x / ulp x = x * 2 ^ 47"
    by (simp add: u)
  also have "\<dots> = 14411518807585588101 / 2048"
    by (simp add: x_def)
  finally have q: "x / ulp x = 14411518807585588101 / 2048" .
  have r: "round_half_even (14411518807585588101 / 2048) = 7036874417766400"
    by (simp add: round_half_even_def frac_def)
  have "to_double x = of_int (round_half_even (x / ulp x)) * ulp x"
    by (simp only: to_double_def)
  also have "\<dots> = of_int (round_half_even (14411518807585588101 / 2048)) * ulp x"
    by (simp only: q)
  also have "\<dots> = of_int 7036874417766400 * (1 / 2 ^ 47)"
    by (simp only: r u)
  also have "\<dots> = 50"
    by simp
  finally have "to_double x = 50" .
  then show ?thesis
    by (simp only: double_sub_def x_def)
qed

lemma touch_end_rounded_distance:
  "(50::real) < 7039689167533507 / 2 ^ 47 - 5764607523034235 / 2 ^ 58 \<and>
   handleTouchEnd (Some three_shots) (touch_end_at (5764607523034235 / 2 ^ 58))
       (tracking (7039689167533507 / 2 ^ 47))
     = Inr (at_index 1)"
proof -
  have "handleTouchEnd (Some three_shots) (touch_end_at (5764607523034235 / 2 ^ 58))
       (tracking (7039689167533507 / 2 ^ 47)) = Inr (at_index 1)"
    unfolding handleTouchEnd_def tracking_def touch_end_at_def
    by (simp add: Let_def double_sub_rounds_to_50 setTouchStartX_def at_index_def
        del: power_numeral)
  then show ?thesis by simp
qed

text \<open>
  C9. Every touch-end event that carries a lifted touch, and every touch-end event
  at all when no start is tracked, is handled without a fault and leaves no tracked
  start coordinate, whether or not it navigated. A touch-end received while no start is
  tracked changes nothing: no navigation, no fault.
\<close>

theorem touch_end_resets_start:
  "(changedTouches e \<noteq> [] \<or> touchStartX s = None \<longrightarrow>
      (\<exists>s'. handleTouchEnd proj e s = Inr s' \<and> touchStartX s' = None)) \<and>
   (touchStartX s = None \<longrightarrow> handleTouchEnd proj e s = Inr s)"
  by (cases s)
     (auto simp: handleTouchEnd_def setTouchStartX_def Let_def
        split: option.splits list.splits)

theorem touch_end_resets_start_witness:
  "changedTouches (touch_end_at 200) \<noteq> [] \<and>
   handleTouchEnd (Some three_shots) (touch_end_at 200) (tracking 300) = Inr (at_index 2) \<and>
   touchStartX (at_index 2) = None \<and>
   touchStartX (at_index 1) = None \<and>
   handleTouchEnd (Some three_shots) \<lparr>touches = [], changedTouches = []\<rparr> (at_index 1)
     = Inr (at_index 1)"
  using
    touch_end_resets_start [of "touch_end_at 200" "tracking 300" "Some three_shots"]
    touch_end_resets_start
      [of "\<lparr>touches = [], changedTouches = []\<rparr>" "at_index 1" "Some three_shots"]
  by (simp add: tracking_def touch_end_at_def at_index_def three_shots_def
      handleTouchEnd_def setTouchStartX_def next_fields double_sub_def to_double_numeral)

subsection \<open>The index invariant\<close>

text \<open>
  C6. For every project with N > 0 screenshots and every state whose current index is
  in [0, N-1], the index is still in [0, N-1] after next, after previous, after an
  explicit selection of an index in [0, N-1], after opening the viewer at an index in
  [0, N-1], and after closing the viewer.
\<close>

theorem index_invariant_preserved:
  "index_in_range p s \<Longrightarrow>
   index_in_range p (handleNextImage (Some p) s) \<and>
   index_in_range p (handlePrevImage (Some p) s) \<and>
   (0 \<le> i \<and> i < int (length (screenshots p)) \<longrightarrow>
      index_in_range p (setCurrentImageIndex i s) \<and>
      index_in_range p (handleOpenImageViewer i s)) \<and>
   index_in_range p (handleCloseImageViewer s)"
  by (auto simp: index_in_range_def handler_defs)

theorem index_invariant_preserved_witness:
  "index_in_range three_shots (at_index 2) \<and>
   (0::int) \<le> 1 \<and> 1 < int (length (screenshots three_shots)) \<and>
   index_in_range three_shots (handleNextImage (Some three_shots) (at_index 2)) \<and>
   index_in_range three_shots (handlePrevImage (Some three_shots) (at_index 2)) \<and>
   index_in_range three_shots (setCurrentImageIndex 1 (at_index 2)) \<and>
   index_in_range three_shots (handleOpenImageViewer 1 (at_index 2)) \<and>
   index_in_range three_shots (handleCloseImageViewer (at_index 2))"
proof -
  have valid: "index_in_range three_shots (at_index 2)"
    by (simp add: index_in_range_def three_shots_def at_index_def)
  have target: "(0::int) \<le> 1 \<and> 1 < int (length (screenshots three_shots))"
    by (simp add: three_shots_def)
  from valid target index_invariant_preserved [OF valid, of 1] show ?thesis
    by blast
qed

subsection \<open>Opening and closing the viewer\<close>

text \<open>
  C7. Opening the viewer with a clicked index i makes i the current index and opens
  the viewer, and the viewer is handed that same index. When i is an index of one of
  the N screenshots, the inline carousel and the viewer both show screenshot i, and
  after a following next both show screenshot (i + 1) mod N.
\<close>

theorem open_viewer_shows_clicked_image:
  "currentImageIndex (handleOpenImageViewer i s) = i \<and>
   showImageViewer (handleOpenImageViewer i s) \<and>
   image_viewer_props p (handleOpenImageViewer i s) =
     \<lparr>show = True, images = screenshots p, currentIndex = i\<rparr> \<and>
   (0 \<le> i \<and> i < int (length (screenshots p)) \<longrightarrow>
      inline_image (Some p) (handleOpenImageViewer i s) = Some (screenshots p ! nat i) \<and>
      ImageViewer_image (image_viewer_props p (handleOpenImageViewer i s))
        = Some (screenshots p ! nat i) \<and>
      currentImageIndex (handleNextImage (Some p) (handleOpenImageViewer i s))
        = (i + 1) mod int (length (screenshots p)) \<and>
      currentIndex (image_viewer_props p (handleNextImage (Some p) (handleOpenImageViewer i s)))
        = (i + 1) mod int (length (screenshots p)) \<and>
      inline_image (Some p) (handleNextImage (Some p) (handleOpenImageViewer i s))
        = Some (screenshots p ! nat ((i + 1) mod int (length (screenshots p)))) \<and>
      ImageViewer_image
          (image_viewer_props p (handleNextImage (Some p) (handleOpenImageViewer i s)))
        = Some (screenshots p ! nat ((i + 1) mod int (length (screenshots p)))))"
  by (auto simp: handler_defs image_viewer_props_def inline_image_def
      ImageViewer_image_def js_index_def)

text \<open>Four screenshots, opened at the last one: next wraps both views to the first.\<close>

theorem open_viewer_shows_clicked_image_witness:
  "(0::int) \<le> 3 \<and> 3 < int (length (screenshots four_shots)) \<and>
   currentImageIndex (handleOpenImageViewer 3 (at_index 1)) = 3 \<and>
   showImageViewer (handleOpenImageViewer 3 (at_index 1)) \<and>
   inline_image (Some four_shots) (handleOpenImageViewer 3 (at_index 1)) = Some ''d.png'' \<and>
   ImageViewer_image (image_viewer_props four_shots (handleOpenImageViewer 3 (at_index 1)))
     = Some ''d.png'' \<and>
   currentImageIndex (handleNextImage (Some four_shots) (handleOpenImageViewer 3 (at_index 1)))
     = 0 \<and>
   inline_image (Some four_shots)
       (handleNextImage (Some four_shots) (handleOpenImageViewer 3 (at_index 1)))
     = Some ''a.png'' \<and>
   ImageViewer_image
       (image_viewer_props four_shots
          (handleNextImage (Some four_shots) (handleOpenImageViewer 3 (at_index 1))))
     = Some ''a.png''"
  using open_viewer_shows_clicked_image [of 3 "at_index 1" four_shots]
  by (simp add: four_shots_def at_index_def handler_defs image_viewer_props_def
      inline_image_def ImageViewer_image_def js_index_def)

text \<open>
  C8. Closing the viewer sets \<^verbatim>\<open>showImageViewer\<close> to false and changes nothing else:
  the current index and the tracked touch stay as they were. Opening at an index,
  closing, and opening again by a click on the inline image gives the state the first
  opening gave, so the viewer is handed that index again.
\<close>

theorem close_viewer_frame:
  "handleCloseImageViewer s = s\<lparr>showImageViewer := False\<rparr> \<and>
   \<not> showImageViewer (handleCloseImageViewer s) \<and>
   currentImageIndex (handleCloseImageViewer s) = currentImageIndex s \<and>
   touchStartX (handleCloseImageViewer s) = touchStartX s \<and>
   dispatch proj (handleCloseImageViewer (handleOpenImageViewer i s)) ClickImage
     = Inr (handleOpenImageViewer i s) \<and>
   image_viewer_props p (handleCloseImageViewer (handleOpenImageViewer i s))
     = \<lparr>show = False, images = screenshots p, currentIndex = i\<rparr>"
  by (simp add: handler_defs image_viewer_props_def)

theorem close_viewer_frame_witness:
  "handleOpenImageViewer 2 (at_index 0)
     = \<lparr>showImageViewer = True, currentImageIndex = 2, touchStartX = None\<rparr> \<and>
   handleCloseImageViewer (handleOpenImageViewer 2 (at_index 0)) = at_index 2 \<and>
   dispatch (Some three_shots) (at_index 2) ClickImage
     = Inr \<lparr>showImageViewer = True, currentImageIndex = 2, touchStartX = None\<rparr>"
  using close_viewer_frame [of "at_index 0" "Some three_shots" 2 three_shots]
  by (simp add: at_index_def handler_defs)

text \<open>
  C10. A click on the inline image opens the viewer with the index that is already
  current: it sets \<^verbatim>\<open>showImageViewer\<close> to true and changes nothing else. No other
  event opens a closed viewer.
\<close>

theorem inline_click_only_opens:
  "dispatch proj s ClickImage = Inr (s\<lparr>showImageViewer := True\<rparr>) \<and>
   (dispatch proj s e = Inr s' \<and> \<not> showImageViewer s \<and> showImageViewer s'
      \<longrightarrow> e = ClickImage)"
  by (cases e)
     (auto simp: handler_defs handleKeyDown_def next_show prev_show
        handleTouchStart_def handleTouchEnd_def Let_def
        split: list.splits option.splits if_splits)

theorem inline_click_only_opens_witness:
  "dispatch (Some three_shots) (at_index 1) ClickImage
     = Inr \<lparr>showImageViewer = True, currentImageIndex = 1, touchStartX = None\<rparr> \<and>
   \<not> showImageViewer (at_index 1) \<and>
   showImageViewer \<lparr>showImageViewer = True, currentImageIndex = 1, touchStartX = None\<rparr>"
  using inline_click_only_opens [of "Some three_shots" "at_index 1" ClickImage
      "\<lparr>showImageViewer = True, currentImageIndex = 1, touchStartX = None\<rparr>"]
  by (simp add: at_index_def)

subsection \<open>A project without screenshots\<close>

text \<open>
  C1, as stated: with no screenshots, next and previous leave the current index
  unchanged. They do not: from the mounted state next moves the index to 1 and previous
  to -1, because the wrap tests compare with \<^verbatim>\<open>length - 1 = -1\<close> and only
  \<^verbatim>\<open>if (project)\<close> guards the update.
\<close>

theorem empty_gallery_index_moves:
  "currentImageIndex initial_state = 0 \<and>
   currentImageIndex (handleNextImage (Some no_shots) initial_state) = 1 \<and>
   currentImageIndex (handlePrevImage (Some no_shots) initial_state) = - 1 \<and>
   handleNextImage (Some no_shots) initial_state \<noteq> initial_state \<and>
   handlePrevImage (Some no_shots) initial_state \<noteq> initial_state"
  by (simp add: next_fields prev_fields no_shots_def initial_state_def)

text \<open>
  C1, amended. With a project that has no screenshots, next and previous raise no
  fault and leave \<^verbatim>\<open>showImageViewer\<close> and the tracked touch unchanged, and the
  carousel is not rendered, so no image is shown for the index. The index itself does
  change: next adds one (from -1 it goes to 0) and previous subtracts one (from 0 it
  goes to -1). The arrow keys are the events that reach the two handlers then.
\<close>

theorem empty_gallery_navigation:
  "screenshots p = [] \<Longrightarrow>
   handleNextImage (Some p) s =
     s\<lparr>currentImageIndex :=
        (if currentImageIndex s = - 1 then 0 else currentImageIndex s + 1)\<rparr> \<and>
   handlePrevImage (Some p) s =
     s\<lparr>currentImageIndex :=
        (if currentImageIndex s = 0 then - 1 else currentImageIndex s - 1)\<rparr> \<and>
   showImageViewer (handleNextImage (Some p) s) = showImageViewer s \<and>
   showImageViewer (handlePrevImage (Some p) s) = showImageViewer s \<and>
   touchStartX (handleNextImage (Some p) s) = touchStartX s \<and>
   touchStartX (handlePrevImage (Some p) s) = touchStartX s \<and>
   dispatch (Some p) s (KeyDown ''ArrowRight'') = Inr (handleNextImage (Some p) s) \<and>
   dispatch (Some p) s (KeyDown ''ArrowLeft'') = Inr (handlePrevImage (Some p) s) \<and>
   \<not> carousel_rendered (Some p) \<and>
   inline_image (Some p) (handleNextImage (Some p) s) = None \<and>
   inline_image (Some p) (handlePrevImage (Some p) s) = None"
  by (simp add: next_fields prev_fields handleKeyDown_def carousel_rendered_def
      inline_image_def)

theorem empty_gallery_navigation_witness:
  "screenshots no_shots = [] \<and>
   handleNextImage (Some no_shots) (at_index 0) = at_index 1 \<and>
   handlePrevImage (Some no_shots) (at_index 0) = at_index (- 1) \<and>
   dispatch (Some no_shots) (at_index 0) (KeyDown ''ArrowRight'') = Inr (at_index 1) \<and>
   \<not> carousel_rendered (Some no_shots) \<and>
   inline_image (Some no_shots) (at_index 1) = None"
proof -
  have empty: "screenshots no_shots = []"
    by (simp add: no_shots_def)
  from empty empty_gallery_navigation [OF empty, of "at_index 0"] show ?thesis
    by (simp add: at_index_def next_fields prev_fields handleKeyDown_def
        carousel_rendered_def inline_image_def)
qed

subsection \<open>Explicit selection\<close>

text \<open>
  C2, as stated: an explicit selection of an index outside [0, N-1] is clamped to the
  nearest bound, so the current index stays in [0, N-1]. It is not: on three
  screenshots, selecting 7 makes 7 the current index, neither in range nor the
  bound 2.
\<close>

theorem explicit_selection_out_of_range:
  "length (screenshots three_shots) = 3 \<and>
   currentImageIndex (setCurrentImageIndex 7 (at_index 0)) = 7 \<and>
   \<not> index_in_range three_shots (setCurrentImageIndex 7 (at_index 0)) \<and>
   currentImageIndex (setCurrentImageIndex 7 (at_index 0)) \<noteq> 2"
  by (simp add: index_in_range_def setCurrentImageIndex_def three_shots_def at_index_def)

text \<open>
  C2, amended. An explicit selection stores the requested index as it is, without
  clamping and without a fault, so the current index is in [0, N-1] afterwards exactly
  when the requested index is. The indicator buttons, one per screenshot, request only
  indices in [0, N-1], so after a click on an indicator the current index is in
  [0, N-1].
\<close>

theorem explicit_selection_unclamped:
  "setCurrentImageIndex i s = s\<lparr>currentImageIndex := i\<rparr> \<and>
   index_in_range p (setCurrentImageIndex i s)
     = (0 \<le> i \<and> i < int (length (screenshots p))) \<and>
   (available (Some p) (ClickIndicator i) \<longrightarrow>
      0 \<le> i \<and> i < int (length (screenshots p)) \<and>
      (\<exists>s'. dispatch (Some p) s (ClickIndicator i) = Inr s' \<and> index_in_range p s'))"
  by (auto simp: handler_defs index_in_range_def indicator_indices_def)

theorem explicit_selection_unclamped_witness:
  "available (Some three_shots) (ClickIndicator 2) \<and>
   dispatch (Some three_shots) (at_index 0) (ClickIndicator 2) = Inr (at_index 2) \<and>
   index_in_range three_shots (at_index 2)"
proof -
  have rendered: "available (Some three_shots) (ClickIndicator 2)"
    by (simp add: indicator_indices_def three_shots_def)
  from rendered explicit_selection_unclamped [of 2 "at_index 0" three_shots]
  show ?thesis
    by (auto simp: at_index_def setCurrentImageIndex_def)
qed

end
